theory Spec2Isabelle
  imports Main "HOL-Library.Multiset"
begin

section \<open>The filter view: \<open>createFilterItemTemplate\<close>\<close>

text \<open>
  A filter item is the object \<open>{ type, count }\<close> that the filter view receives for each
  filter. The template interpolates \<open>type\<close> as text, so the model keeps it as a string;
  \<open>count\<close> is the number of points that pass the filter.
\<close>

record filter_item =
  ftype :: string
  fcount :: int

definition createFilterItemTemplate :: \<open>filter_item \<Rightarrow> string \<Rightarrow> string\<close> where
  \<open>createFilterItemTemplate flt currentFilterType =
     (let type' = ftype flt;
          count' = fcount flt;
          isChecked = (if type' = currentFilterType then ''checked'' else '''');
          isDisabled = (if count' = 0 then ''disabled'' else '''')
      in ''<div class="trip-filters__filter">\<newline>      <input id="filter-'' @ type'
         @ ''" class="trip-filters__filter-input  visually-hidden" type="radio" name="trip-filter" value="''
         @ type' @ ''" '' @ isChecked @ '' '' @ isDisabled
         @ ''>\<newline>      <label class="trip-filters__filter-label" for="filter-'' @ type'
         @ ''">'' @ type' @ ''</label>\<newline>    </div>'')\<close>

definition createFiltersTemplate :: \<open>filter_item list \<Rightarrow> string \<Rightarrow> string\<close> where
  \<open>createFiltersTemplate filterItems currentFilterType =
     ''<form class="trip-filters" action="#" method="get">\<newline>    ''
     @ concat (map (\<lambda>flt. createFilterItemTemplate flt currentFilterType) filterItems)
     @ ''\<newline>    <button class="visually-hidden" type="submit">Accept filter</button>\<newline>  </form>''\<close>

subsection \<open>Reading the attributes of the generated input tag\<close>

text \<open>
  The template is markup, so "the input carries an attribute" is read off the text the way
  a browser reads a start tag: the tag body runs from \<open><input\<close> to the first \<open>>\<close> outside
  double quotes, it is cut into words at white space outside double quotes, and the name of
  an attribute is the part of a word before \<open>=\<close>.
\<close>

fun find_input :: \<open>string \<Rightarrow> string option\<close> where
  \<open>find_input [] = None\<close>
| \<open>find_input (c # cs) =
     (if take 6 (c # cs) = ''<input'' then Some (drop 6 (c # cs)) else find_input cs)\<close>

definition is_space :: \<open>char \<Rightarrow> bool\<close> where
  \<open>is_space c = (c = CHR '' '' \<or> c = CHR ''\<newline>'' \<or> c = CHR 0x09)\<close>

fun tag_words :: \<open>bool \<Rightarrow> string \<Rightarrow> string \<Rightarrow> string list\<close> where
  \<open>tag_words quoted w [] = [w]\<close>
| \<open>tag_words quoted w (c # cs) =
     (if quoted then tag_words (c \<noteq> CHR ''"'') (w @ [c]) cs
      else if c = CHR ''>'' then [w]
      else if c = CHR ''"'' then tag_words True (w @ [c]) cs
      else if is_space c then w # tag_words False [] cs
      else tag_words False (w @ [c]) cs)\<close>

definition attribute_names :: \<open>string \<Rightarrow> string list\<close> where
  \<open>attribute_names html =
     (case find_input html of
        None \<Rightarrow> []
      | Some body \<Rightarrow>
          filter (\<lambda>w. w \<noteq> []) (map (takeWhile (\<lambda>c. c \<noteq> CHR ''='')) (tag_words False [] body)))\<close>

definition input_has_attribute :: \<open>string \<Rightarrow> string \<Rightarrow> bool\<close> where
  \<open>input_has_attribute name html = (name \<in> set (attribute_names html))\<close>

section \<open>The board presenter\<close>

subsection \<open>Constants and data\<close>

text \<open>
  The enumerations of \<open>const.js\<close> are used by the presenter only through the members
  named below; every other value a variable of that kind can hold is kept under a
  catch-all constructor, so that a \<open>switch\<close> without a matching \<open>case\<close> has its own
  branch in the model.
\<close>

datatype sort_type = DAY | PRICE | TIME | SortOther string

datatype filter_type = EVERYTHING | FilterOther string

datatype update_type = PATCH | MINOR | MAJOR | INIT | UpdateOther string

datatype user_action = UPDATE_POINT | ADD_POINT | DELETE_POINT | ActionOther string

datatype render_position = BEFOREEND | AFTERBEGIN

record point =
  point_id :: string
  dateFrom :: int
  dateTo :: int
  basePrice :: int
  point_type :: string
  destination :: string
  offers :: \<open>string list\<close>

record offer =
  offer_id :: string
  title :: string
  price :: int

record destination_info =
  name :: string
  description :: string
  pictures :: \<open>string list\<close>

text \<open>
  The payload of a notification or of a view action: a point, a filter type, or nothing
  (\<open>undefined\<close>).
\<close>

datatype payload = PointData point | FilterData filter_type | NoData

datatype error = TypeError

text \<open>
  The views the presenter owns. \<open>SortView\<close> and \<open>NoPointsView\<close> are built from the
  value they display; the other three are the instances created with the presenter.
\<close>

datatype component =
    EventListView
  | LoadingView
  | ErrorView
  | SortView sort_type
  | NoPointsView filter_type

type_synonym ref = nat

datatype model = PointsModel | FilterModel | OfferModel | DestinationModel

datatype observer = BoardPresenter_handleModelEvent | OtherObserver string

text \<open>
  Everything the presenter does to its collaborators (the framework's \<open>render\<close> and
  \<open>remove\<close>, the child presenters, the points model) is a call recorded in order. A
  child presenter is an object, named here by the reference it got when it was created.
  \<open>Render c None\<close> is \<open>render(c, container)\<close> without a position. The collaborators
  are not among the sources: a call on one of them returns, and what it does beyond
  being called is not part of this model.
\<close>

datatype call =
    Render component \<open>render_position option\<close>
  | Remove \<open>component option\<close>
  | PointPresenter_new ref
  | PointPresenter_init ref point
  | PointPresenter_destroy ref
  | NewPointPresenter_new ref
  | NewPointPresenter_destroy ref
  | PointsModel_updatePoint update_type payload
  | PointsModel_addPoint update_type payload
  | PointsModel_deletePoint update_type payload
  | OtherObserver_called string update_type payload

text \<open>
  The collaborators: what the four models hold, who observes them, the calls made so far
  and the next free object reference.
\<close>

record world =
  pointsModel_points :: \<open>point list\<close>
  filterModel_filter :: filter_type
  offerModel_offersByType :: \<open>(string \<times> offer list) list\<close>
  destinationModel_destinations :: \<open>destination_info list\<close>
  observers :: \<open>model \<Rightarrow> observer list\<close>
  calls :: \<open>call list\<close>
  next_ref :: ref

text \<open>
  The presenter's private fields that change. \<open>pointPresenters\<close> is the \<open>Map\<close> from a
  point's id to its presenter, in insertion order.
\<close>

record state = world +
  sortComponent :: \<open>component option\<close>
  noPointsComponent :: \<open>component option\<close>
  pointPresenters :: \<open>(string \<times> ref) list\<close>
  newPointPresenter :: \<open>ref option\<close>
  currentSortType :: sort_type
  filterType :: filter_type
  isLoading :: bool

type_synonym result = \<open>error option \<times> state\<close>

subsection \<open>Language and framework primitives\<close>

text \<open>
  A comparator returns a number whose sign orders its arguments. The language defines
  the result of \<open>Array.prototype.sort\<close> only for a consistent comparator: every value
  compares equal to itself, comparing equal is symmetric, and comparing equal, before and
  after are each transitive. For any other comparator the order is left to the engine,
  so the comparators of this model are the consistent ones.
\<close>

definition consistent :: \<open>('a \<Rightarrow> 'a \<Rightarrow> int) \<Rightarrow> bool\<close> where
  \<open>consistent cmp \<longleftrightarrow>
     (\<forall>a. cmp a a = 0)
     \<and> (\<forall>a b. cmp a b = 0 \<longrightarrow> cmp b a = 0)
     \<and> (\<forall>a b c. cmp a b = 0 \<longrightarrow> cmp b c = 0 \<longrightarrow> cmp a c = 0)
     \<and> (\<forall>a b c. cmp a b < 0 \<longrightarrow> cmp b c < 0 \<longrightarrow> cmp a c < 0)
     \<and> (\<forall>a b c. cmp a b > 0 \<longrightarrow> cmp b c > 0 \<longrightarrow> cmp a c > 0)\<close>

typedef 'a comparator = \<open>{cmp :: 'a \<Rightarrow> 'a \<Rightarrow> int. consistent cmp}\<close>
  morphisms compare Comparator
  by (rule exI [of _ \<open>\<lambda>a b. 0\<close>]) (simp add: consistent_def)

text \<open>
  For a consistent comparator the sort is a stable one: an element stays in front of a
  later one unless the comparator puts it strictly after.
\<close>

fun sort_insert :: \<open>('a \<Rightarrow> 'a \<Rightarrow> int) \<Rightarrow> 'a \<Rightarrow> 'a list \<Rightarrow> 'a list\<close> where
  \<open>sort_insert cmp x [] = [x]\<close>
| \<open>sort_insert cmp x (y # ys) =
     (if cmp x y \<le> 0 then x # y # ys else y # sort_insert cmp x ys)\<close>

fun js_sort :: \<open>('a \<Rightarrow> 'a \<Rightarrow> int) \<Rightarrow> 'a list \<Rightarrow> 'a list\<close> where
  \<open>js_sort cmp [] = []\<close>
| \<open>js_sort cmp (x # xs) = sort_insert cmp x (js_sort cmp xs)\<close>

text \<open>
  \<open>filter.js\<close> and \<open>utils.js\<close> are not part of the sources at hand: the filter table and
  the three comparators are parameters.

  Modelled from the spec: a filter is a predicate over the point collection. The entry
  of the filter table for a filter type either hands back the array it was given, or
  builds a new array of the points that satisfy its predicate. The points model hands out
  its own array; a model that hands out a copy is the case of an entry that selects every
  point.
\<close>

datatype filter_fn = ReturnsArgument | Selects \<open>point \<Rightarrow> bool\<close>

text \<open>
  An array the getter works on is the points model's own array or a new one, given by
  its elements.
\<close>

datatype array_ref = ModelArray | NewArray \<open>point list\<close>

definition elements :: \<open>array_ref \<Rightarrow> state \<Rightarrow> point list\<close> where
  \<open>elements a s = (case a of ModelArray \<Rightarrow> pointsModel_points s | NewArray xs \<Rightarrow> xs)\<close>

definition call_filter :: \<open>filter_fn \<Rightarrow> array_ref \<Rightarrow> state \<Rightarrow> array_ref\<close> where
  \<open>call_filter f a s =
     (case f of ReturnsArgument \<Rightarrow> a | Selects p \<Rightarrow> NewArray (filter p (elements a s)))\<close>

text \<open>\<open>sort\<close> orders the array it is called on and returns it.\<close>

definition array_sort :: \<open>point comparator \<Rightarrow> array_ref \<Rightarrow> state \<Rightarrow> point list \<times> state\<close> where
  \<open>array_sort cmp a s =
     (case a of
        ModelArray \<Rightarrow>
          (let sorted = js_sort (compare cmp) (pointsModel_points s)
           in (sorted, s\<lparr>pointsModel_points := sorted\<rparr>))
      | NewArray xs \<Rightarrow> (js_sort (compare cmp) xs, s))\<close>

record env =
  filter_table :: \<open>filter_type \<Rightarrow> filter_fn\<close>
  sortDay :: \<open>point comparator\<close>
  sortPrice :: \<open>point comparator\<close>
  sortTime :: \<open>point comparator\<close>

text \<open>\<open>Map.prototype.set\<close>: a known key keeps its place, a new key goes last.\<close>

fun map_set :: \<open>'k \<Rightarrow> 'v \<Rightarrow> ('k \<times> 'v) list \<Rightarrow> ('k \<times> 'v) list\<close> where
  \<open>map_set k v [] = [(k, v)]\<close>
| \<open>map_set k v ((k', v') # m) =
     (if k' = k then (k, v) # m else (k', v') # map_set k v m)\<close>

definition log :: \<open>call \<Rightarrow> state \<Rightarrow> state\<close> where
  \<open>log c s = s\<lparr>calls := calls s @ [c]\<rparr>\<close>

definition render :: \<open>component \<Rightarrow> render_position option \<Rightarrow> state \<Rightarrow> state\<close> where
  \<open>render c pos s = log (Render c pos) s\<close>

definition remove :: \<open>component option \<Rightarrow> state \<Rightarrow> state\<close> where
  \<open>remove c s = log (Remove c) s\<close>

text \<open>
  Modelled from the spec: the observer pattern of the models (the framework's
  \<open>Observable\<close> class is not among the sources). A model keeps its observers without
  duplicates, in the order they were added, and a notification calls each of them with
  the update type and the payload.
\<close>

definition addObserver :: \<open>model \<Rightarrow> observer \<Rightarrow> state \<Rightarrow> state\<close> where
  \<open>addObserver m ob s =
     (if ob \<in> set (observers s m) then s
      else s\<lparr>observers := (observers s)(m := observers s m @ [ob])\<rparr>)\<close>

subsection \<open>Construction\<close>

text \<open>
  The class fields get their initial values, then the constructor registers
  \<open>#handleModelEvent\<close> with the four models, in the order of the source.
\<close>

definition initial_fields :: \<open>world \<Rightarrow> state\<close> where
  \<open>initial_fields w =
     \<lparr>pointsModel_points = pointsModel_points w,
      filterModel_filter = filterModel_filter w,
      offerModel_offersByType = offerModel_offersByType w,
      destinationModel_destinations = destinationModel_destinations w,
      observers = observers w,
      calls = calls w,
      next_ref = next_ref w,
      sortComponent = None,
      noPointsComponent = None,
      pointPresenters = [],
      newPointPresenter = None,
      currentSortType = DAY,
      filterType = EVERYTHING,
      isLoading = True\<rparr>\<close>

definition constructor :: \<open>world \<Rightarrow> state\<close> where
  \<open>constructor w =
     (let s0 = initial_fields w;
          s1 = addObserver PointsModel BoardPresenter_handleModelEvent s0;
          s2 = addObserver FilterModel BoardPresenter_handleModelEvent s1;
          s3 = addObserver OfferModel BoardPresenter_handleModelEvent s2
      in addObserver DestinationModel BoardPresenter_handleModelEvent s3)\<close>

subsection \<open>The visible points\<close>

text \<open>
  The getter stores the filter model's current filter in \<open>#filterType\<close>, filters the
  model's points and sorts the result for three of the sort types. It returns the array
  and the state with the field updated. \<open>sort\<close> works in place on the array the filter
  returned: when that is the array it was given, the points model's own array is sorted
  with it.
\<close>

definition points :: \<open>env \<Rightarrow> state \<Rightarrow> point list \<times> state\<close> where
  \<open>points env s =
     (let s1 = s\<lparr>filterType := filterModel_filter s\<rparr>;
          points' = ModelArray;
          filteredPoints = call_filter (filter_table env (filterType s1)) points' s1
      in case currentSortType s1 of
           DAY \<Rightarrow> array_sort (sortDay env) filteredPoints s1
         | PRICE \<Rightarrow> array_sort (sortPrice env) filteredPoints s1
         | TIME \<Rightarrow> array_sort (sortTime env) filteredPoints s1
         | SortOther other \<Rightarrow> (elements filteredPoints s1, s1))\<close>

subsection \<open>Rendering\<close>

definition renderPoint :: \<open>point \<Rightarrow> state \<Rightarrow> state\<close> where
  \<open>renderPoint pt s =
     (let pointPresenter = next_ref s;
          s1 = log (PointPresenter_new pointPresenter) (s\<lparr>next_ref := Suc pointPresenter\<rparr>);
          s2 = log (PointPresenter_init pointPresenter pt) s1
      in s2\<lparr>pointPresenters := map_set (point_id pt) pointPresenter (pointPresenters s2)\<rparr>)\<close>

definition renderSort :: \<open>state \<Rightarrow> state\<close> where
  \<open>renderSort s =
     (let s1 = s\<lparr>sortComponent := Some (SortView (currentSortType s))\<rparr>
      in render (SortView (currentSortType s)) (Some AFTERBEGIN) s1)\<close>

definition renderLoading :: \<open>state \<Rightarrow> state\<close> where
  \<open>renderLoading s = render LoadingView (Some AFTERBEGIN) s\<close>

definition renderError :: \<open>state \<Rightarrow> state\<close> where
  \<open>renderError s = render ErrorView (Some AFTERBEGIN) s\<close>

definition renderNoPoints :: \<open>state \<Rightarrow> state\<close> where
  \<open>renderNoPoints s =
     (let s1 = s\<lparr>noPointsComponent := Some (NoPointsView (filterType s))\<rparr>
      in render (NoPointsView (filterType s)) None s1)\<close>

definition renderPointList :: \<open>point list \<Rightarrow> state \<Rightarrow> state\<close> where
  \<open>renderPointList pts s = fold renderPoint pts (render EventListView None s)\<close>

definition renderBoard :: \<open>env \<Rightarrow> state \<Rightarrow> state\<close> where
  \<open>renderBoard env s =
     (let (points', s1) = points env s;
          pointCount = length points'
      in if isLoading s1 then renderLoading s1
         else if pointCount = 0 then renderNoPoints s1
         else (let s2 = renderSort s1;
                   (points'', s3) = points env s2
               in renderPointList points'' s3))\<close>

definition init :: \<open>env \<Rightarrow> state \<Rightarrow> state\<close> where
  \<open>init env s = renderBoard env s\<close>

subsection \<open>Clearing\<close>

text \<open>
  \<open>#clearBoard\<close> destructures its argument with a default: called without an argument
  or with a sort type (a string, which has no \<open>resetSortType\<close> property) the flag is
  \<open>false\<close>. The last statement calls \<open>destroy\<close> on \<open>#newPointPresenter\<close>; on \<open>null\<close>
  that is a \<open>TypeError\<close>, raised after everything before it has taken effect.
\<close>

datatype clearBoard_arg = Omitted | Options bool | SortTypeArg sort_type

fun resetSortType_of :: \<open>clearBoard_arg \<Rightarrow> bool\<close> where
  \<open>resetSortType_of Omitted = False\<close>
| \<open>resetSortType_of (Options b) = b\<close>
| \<open>resetSortType_of (SortTypeArg t) = False\<close>

definition destroy_all :: \<open>(string \<times> ref) list \<Rightarrow> state \<Rightarrow> state\<close> where
  \<open>destroy_all m s = fold (\<lambda>(k, presenter). log (PointPresenter_destroy presenter)) m s\<close>

definition clearBoard :: \<open>clearBoard_arg \<Rightarrow> state \<Rightarrow> result\<close> where
  \<open>clearBoard arg s =
     (let resetSortType = resetSortType_of arg;
          s1 = destroy_all (pointPresenters s) s;
          s2 = s1\<lparr>pointPresenters := []\<rparr>;
          s3 = remove (sortComponent s2) s2;
          s4 = remove (noPointsComponent s3) s3;
          s5 = remove (Some LoadingView) s4;
          s6 = (if noPointsComponent s5 \<noteq> None then remove (noPointsComponent s5) s5 else s5);
          s7 = (if resetSortType then s6\<lparr>currentSortType := DAY\<rparr> else s6)
      in case newPointPresenter s7 of
           None \<Rightarrow> (Some TypeError, s7)
         | Some presenter \<Rightarrow> (None, log (NewPointPresenter_destroy presenter) s7))\<close>

subsection \<open>Handlers\<close>

definition handleViewAction :: \<open>user_action \<Rightarrow> update_type \<Rightarrow> payload \<Rightarrow> state \<Rightarrow> state\<close> where
  \<open>handleViewAction actionType updateType update s =
     (case actionType of
        UPDATE_POINT \<Rightarrow> log (PointsModel_updatePoint updateType update) s
      | ADD_POINT \<Rightarrow> log (PointsModel_addPoint updateType update) s
      | DELETE_POINT \<Rightarrow> log (PointsModel_deletePoint updateType update) s
      | ActionOther other \<Rightarrow> s)\<close>

text \<open>
  In the \<open>PATCH\<close> branch \<open>data.id\<close> is looked up in the map and \<open>init\<close> is called on
  what comes back: without a payload, with a payload that has no such id, or with an id
  the map does not hold, that is a \<open>TypeError\<close>.
\<close>

definition handleModelEvent :: \<open>env \<Rightarrow> update_type \<Rightarrow> payload \<Rightarrow> state \<Rightarrow> result\<close> where
  \<open>handleModelEvent env updateType data s =
     (case updateType of
        PATCH \<Rightarrow>
          (case data of
             PointData pt \<Rightarrow>
               (case map_of (pointPresenters s) (point_id pt) of
                  Some presenter \<Rightarrow> (None, log (PointPresenter_init presenter pt) s)
                | None \<Rightarrow> (Some TypeError, s))
           | FilterData f \<Rightarrow> (Some TypeError, s)
           | NoData \<Rightarrow> (Some TypeError, s))
      | MINOR \<Rightarrow>
          (case clearBoard Omitted s of
             (None, s1) \<Rightarrow> (None, renderBoard env s1)
           | (Some e, s1) \<Rightarrow> (Some e, s1))
      | MAJOR \<Rightarrow>
          (case clearBoard (Options True) s of
             (None, s1) \<Rightarrow> (None, renderBoard env s1)
           | (Some e, s1) \<Rightarrow> (Some e, s1))
      | INIT \<Rightarrow>
          (let s1 = s\<lparr>isLoading := False\<rparr>;
               s2 = remove (Some LoadingView) s1
           in if length (offerModel_offersByType s2) = 0
                 \<or> length (destinationModel_destinations s2) = 0
              then (None, renderError s2)
              else (let presenter = next_ref s2;
                        s3 = log (NewPointPresenter_new presenter) (s2\<lparr>next_ref := Suc presenter\<rparr>);
                        s4 = s3\<lparr>newPointPresenter := Some presenter\<rparr>
                    in (None, renderBoard env s4)))
      | UpdateOther other \<Rightarrow> (None, s))\<close>

definition handleSortTypeChange :: \<open>env \<Rightarrow> sort_type \<Rightarrow> state \<Rightarrow> result\<close> where
  \<open>handleSortTypeChange env sortType s =
     (if currentSortType s = sortType then (None, s)
      else (let s1 = s\<lparr>currentSortType := sortType\<rparr>
            in case clearBoard (SortTypeArg sortType) s1 of
                 (None, s2) \<Rightarrow> (None, renderBoard env s2)
               | (Some e, s2) \<Rightarrow> (Some e, s2)))\<close>

subsection \<open>Notifications\<close>

text \<open>
  Modelled from the spec: a model's change notification (the framework's \<open>_notify\<close> is
  not among the sources) calls the observers one after the other; an observer that throws
  ends the notification. Observers other than the board presenter's are recorded only.
\<close>

definition call_observer :: \<open>env \<Rightarrow> observer \<Rightarrow> update_type \<Rightarrow> payload \<Rightarrow> state \<Rightarrow> result\<close> where
  \<open>call_observer env ob updateType data s =
     (case ob of
        BoardPresenter_handleModelEvent \<Rightarrow> handleModelEvent env updateType data s
      | OtherObserver nm \<Rightarrow> (None, log (OtherObserver_called nm updateType data) s))\<close>

fun run_observers :: \<open>env \<Rightarrow> observer list \<Rightarrow> update_type \<Rightarrow> payload \<Rightarrow> state \<Rightarrow> result\<close> where
  \<open>run_observers env [] updateType data s = (None, s)\<close>
| \<open>run_observers env (ob # obs) updateType data s =
     (case call_observer env ob updateType data s of
        (None, s1) \<Rightarrow> run_observers env obs updateType data s1
      | (Some e, s1) \<Rightarrow> (Some e, s1))\<close>

definition notify :: \<open>env \<Rightarrow> model \<Rightarrow> update_type \<Rightarrow> payload \<Rightarrow> state \<Rightarrow> result\<close> where
  \<open>notify env m updateType data s = run_observers env (observers s m) updateType data s\<close>

subsection \<open>The life of a presenter\<close>

text \<open>
  What can happen to a presenter once it is constructed: a model notifies its observers,
  the handler is called, the user picks a sort type or acts on a point, \<open>init\<close> is
  called, the data of the models changes, and other observers register with a model. An
  exception ends the event and leaves the state as it was when it was thrown.
\<close>

datatype event =
    ModelNotifies model update_type payload
  | ModelEvent update_type payload
  | SortTypeChosen sort_type
  | ViewAction user_action update_type payload
  | InitCalled
  | ModelsChanged \<open>point list\<close> filter_type \<open>(string \<times> offer list) list\<close> \<open>destination_info list\<close>
  | ObserverAdded model string

fun step :: \<open>env \<Rightarrow> event \<Rightarrow> state \<Rightarrow> state\<close> where
  \<open>step env (ModelNotifies m updateType data) s = snd (notify env m updateType data s)\<close>
| \<open>step env (ModelEvent updateType data) s = snd (handleModelEvent env updateType data s)\<close>
| \<open>step env (SortTypeChosen sortType) s = snd (handleSortTypeChange env sortType s)\<close>
| \<open>step env (ViewAction actionType updateType update) s =
     handleViewAction actionType updateType update s\<close>
| \<open>step env InitCalled s = init env s\<close>
| \<open>step env (ModelsChanged pts f offs dests) s =
     s\<lparr>pointsModel_points := pts, filterModel_filter := f,
       offerModel_offersByType := offs, destinationModel_destinations := dests\<rparr>\<close>
| \<open>step env (ObserverAdded m nm) s = addObserver m (OtherObserver nm) s\<close>

definition run :: \<open>env \<Rightarrow> event list \<Rightarrow> state \<Rightarrow> state\<close> where
  \<open>run env events s = fold (step env) events s\<close>

section \<open>What the presenter is expected to show\<close>

text \<open>
  The view array as the specification words it: the points of the model with the current
  filter applied, sorted with the comparator that belongs to the current sort type when
  that type is one of day, price and time.
\<close>

definition comparator_for :: \<open>env \<Rightarrow> sort_type \<Rightarrow> point comparator option\<close> where
  \<open>comparator_for env t =
     (if t = DAY then Some (sortDay env)
      else if t = PRICE then Some (sortPrice env)
      else if t = TIME then Some (sortTime env)
      else None)\<close>

fun filtered_points :: \<open>filter_fn \<Rightarrow> point list \<Rightarrow> point list\<close> where
  \<open>filtered_points ReturnsArgument pts = pts\<close>
| \<open>filtered_points (Selects p) pts = filter p pts\<close>

definition filtered_sorted :: \<open>env \<Rightarrow> state \<Rightarrow> point list\<close> where
  \<open>filtered_sorted env s =
     (let filtered = filtered_points (filter_table env (filterModel_filter s)) (pointsModel_points s)
      in case comparator_for env (currentSortType s) of
           Some cmp \<Rightarrow> js_sort (compare cmp) filtered
         | None \<Rightarrow> filtered)\<close>

text \<open>
  What "sorted with a comparator" asks of a result \<open>ys\<close> for an array \<open>xs\<close>: the same
  elements, each in front of those the comparator does not put before it, and elements
  that compare equal in the order they had.
\<close>

definition sorted_with :: \<open>'a comparator \<Rightarrow> 'a list \<Rightarrow> 'a list \<Rightarrow> bool\<close> where
  \<open>sorted_with cmp xs ys \<longleftrightarrow>
     mset ys = mset xs
     \<and> sorted_wrt (\<lambda>a b. compare cmp a b \<le> 0) ys
     \<and> (\<forall>a. filter (\<lambda>x. compare cmp x a = 0) ys = filter (\<lambda>x. compare cmp x a = 0) xs)\<close>

text \<open>
  The points model's array after the getter has run: sorted like the view when the filter
  handed the model's array back, untouched otherwise.
\<close>

definition points_after :: \<open>env \<Rightarrow> state \<Rightarrow> point list\<close> where
  \<open>points_after env s =
     (if filter_table env (filterModel_filter s) = ReturnsArgument then filtered_sorted env s
      else pointsModel_points s)\<close>

fun presenter_calls :: \<open>ref \<Rightarrow> point list \<Rightarrow> call list\<close> where
  \<open>presenter_calls r [] = []\<close>
| \<open>presenter_calls r (pt # pts) =
     PointPresenter_new r # PointPresenter_init r pt # presenter_calls (Suc r) pts\<close>

fun presenter_map :: \<open>ref \<Rightarrow> point list \<Rightarrow> (string \<times> ref) list \<Rightarrow> (string \<times> ref) list\<close> where
  \<open>presenter_map r [] m = m\<close>
| \<open>presenter_map r (pt # pts) m = presenter_map (Suc r) pts (map_set (point_id pt) r m)\<close>

text \<open>
  The calls that clearing the board makes before it turns to the new-point presenter: one
  \<open>destroy\<close> per entry of the map, then the removals.
\<close>

definition destroy_calls :: \<open>(string \<times> ref) list \<Rightarrow> call list\<close> where
  \<open>destroy_calls m = map (\<lambda>(k, presenter). PointPresenter_destroy presenter) m\<close>

definition clear_calls :: \<open>state \<Rightarrow> call list\<close> where
  \<open>clear_calls s =
     destroy_calls (pointPresenters s)
     @ [Remove (sortComponent s), Remove (noPointsComponent s), Remove (Some LoadingView)]
     @ (if noPointsComponent s \<noteq> None then [Remove (noPointsComponent s)] else [])\<close>

text \<open>The presenters created by a sequence of calls, in order.\<close>

fun created :: \<open>call list \<Rightarrow> ref list\<close> where
  \<open>created [] = []\<close>
| \<open>created (PointPresenter_new r # cs) = r # created cs\<close>
| \<open>created (c # cs) = created cs\<close>

section \<open>Example data\<close>

text \<open>
  A filter table and comparators of the usual kind (by day, by falling price, by falling
  duration; every point or the points from day 15 on), two points, a world whose data has
  loaded and one whose offers and destinations have not; the presenter after a successful
  \<open>INIT\<close>, after a second one and after a failed one; a sequence of events.
\<close>

definition by_key :: \<open>('a \<Rightarrow> int) \<Rightarrow> 'a comparator\<close> where
  \<open>by_key k = Comparator (\<lambda>a b. k a - k b)\<close>

definition example_env :: env where
  \<open>example_env =
     \<lparr>filter_table =
        (\<lambda>f. case f of
               EVERYTHING \<Rightarrow> ReturnsArgument
             | FilterOther nm \<Rightarrow> Selects (\<lambda>pt. 15 \<le> dateFrom pt)),
      sortDay = by_key dateFrom,
      sortPrice = by_key (\<lambda>pt. - basePrice pt),
      sortTime = by_key (\<lambda>pt. dateFrom pt - dateTo pt)\<rparr>\<close>

definition point_a :: point where
  \<open>point_a =
     \<lparr>point_id = ''a'', dateFrom = 20, dateTo = 25, basePrice = 100, point_type = ''taxi'',
      destination = ''geneva'', offers = []\<rparr>\<close>

definition point_b :: point where
  \<open>point_b =
     \<lparr>point_id = ''b'', dateFrom = 10, dateTo = 12, basePrice = 300, point_type = ''flight'',
      destination = ''geneva'', offers = []\<rparr>\<close>

definition example_world :: world where
  \<open>example_world =
     \<lparr>pointsModel_points = [point_a, point_b],
      filterModel_filter = EVERYTHING,
      offerModel_offersByType = [(''taxi'', [])],
      destinationModel_destinations = [\<lparr>name = ''Geneva'', description = '''', pictures = []\<rparr>],
      observers = (\<lambda>m. []),
      calls = [],
      next_ref = 0\<rparr>\<close>

definition unloaded_world :: world where
  \<open>unloaded_world =
     \<lparr>pointsModel_points = [],
      filterModel_filter = EVERYTHING,
      offerModel_offersByType = [],
      destinationModel_destinations = [],
      observers = (\<lambda>m. []),
      calls = [],
      next_ref = 0\<rparr>\<close>

definition loaded_state :: state where
  \<open>loaded_state = snd (handleModelEvent example_env INIT NoData (constructor example_world))\<close>

definition failed_state :: state where
  \<open>failed_state = snd (handleModelEvent example_env INIT NoData (constructor unloaded_world))\<close>

definition twice_loaded_state :: state where
  \<open>twice_loaded_state = snd (handleModelEvent example_env INIT NoData loaded_state)\<close>

definition example_events :: \<open>event list\<close> where
  \<open>example_events =
     [ModelNotifies PointsModel INIT NoData,
      SortTypeChosen PRICE,
      ObserverAdded FilterModel ''filter-presenter'',
      ModelsChanged [point_a] (FilterOther ''future'') [] [],
      ModelNotifies FilterModel MAJOR (FilterData (FilterOther ''future''))]\<close>

section \<open>Properties\<close>

subsection \<open>Auxiliary facts\<close>

lemma tag_words_quoted_text:
  \<open>CHR ''"'' \<notin> set t \<Longrightarrow> tag_words True w (t @ rest) = tag_words True (w @ t) rest\<close>
  by (induction t arbitrary: w) auto

text \<open>
  A consistent comparator orders its arguments totally, up to comparing equal.
\<close>

lemma consistent_compare: \<open>consistent (compare c)\<close>
  using compare [of c] by simp

lemma compare_refl: \<open>compare c a a = 0\<close>
  using consistent_compare [of c] by (simp add: consistent_def)

lemma compare_sym: \<open>compare c a b = 0 \<Longrightarrow> compare c b a = 0\<close>
  using consistent_compare [of c] unfolding consistent_def by blast

lemma compare_eq_trans: \<open>compare c a b = 0 \<Longrightarrow> compare c b d = 0 \<Longrightarrow> compare c a d = 0\<close>
  using consistent_compare [of c] unfolding consistent_def by blast

lemma compare_lt_trans: \<open>compare c a b < 0 \<Longrightarrow> compare c b d < 0 \<Longrightarrow> compare c a d < 0\<close>
  using consistent_compare [of c] unfolding consistent_def by blast

lemma compare_gt_trans: \<open>compare c a b > 0 \<Longrightarrow> compare c b d > 0 \<Longrightarrow> compare c a d > 0\<close>
  using consistent_compare [of c] unfolding consistent_def by blast

lemma compare_gt_lt:
  assumes \<open>compare c a b > 0\<close>
  shows \<open>compare c b a < 0\<close>
proof (rule ccontr)
  assume \<open>\<not> compare c b a < 0\<close>
  then consider \<open>compare c b a = 0\<close> | \<open>compare c b a > 0\<close>
    by linarith
  then show False
  proof cases
    case 1
    from compare_sym [OF 1] assms show False by simp
  next
    case 2
    from compare_gt_trans [OF assms 2] compare_refl [of c a] show False by simp
  qed
qed

lemma compare_lt_gt:
  assumes \<open>compare c a b < 0\<close>
  shows \<open>compare c b a > 0\<close>
proof (rule ccontr)
  assume \<open>\<not> compare c b a > 0\<close>
  then consider \<open>compare c b a = 0\<close> | \<open>compare c b a < 0\<close>
    by linarith
  then show False
  proof cases
    case 1
    from compare_sym [OF 1] assms show False by simp
  next
    case 2
    from compare_lt_trans [OF assms 2] compare_refl [of c a] show False by simp
  qed
qed

lemma compare_total: \<open>compare c a b \<le> 0 \<or> compare c b a \<le> 0\<close>
  using compare_gt_lt [of c a b] by linarith

lemma compare_le_trans:
  assumes ab: \<open>compare c a b \<le> 0\<close> and bd: \<open>compare c b d \<le> 0\<close>
  shows \<open>compare c a d \<le> 0\<close>
proof (rule ccontr)
  assume \<open>\<not> compare c a d \<le> 0\<close>
  then have ad: \<open>compare c a d > 0\<close> by simp
  then have da: \<open>compare c d a < 0\<close> by (rule compare_gt_lt)
  show False
  proof (cases \<open>compare c a b = 0\<close>)
    case True
    show False
    proof (cases \<open>compare c b d = 0\<close>)
      case bd0: True
      from compare_eq_trans [OF True bd0] ad show False by simp
    next
      case False
      with bd have \<open>compare c b d < 0\<close> by simp
      from compare_lt_trans [OF this da] compare_sym [OF True] show False by simp
    qed
  next
    case False
    with ab have lt: \<open>compare c a b < 0\<close> by simp
    from compare_lt_trans [OF da lt] have db: \<open>compare c d b < 0\<close> .
    from compare_lt_gt [OF db] bd show False by simp
  qed
qed

text \<open>
  The sort returns the elements it was given in order, keeps the order of elements that
  compare equal, and is the only list that does; sorting a sorted list changes nothing.
\<close>

lemma mset_sort_insert: \<open>mset (sort_insert cmp x xs) = add_mset x (mset xs)\<close>
  by (induction xs) auto

lemma mset_js_sort: \<open>mset (js_sort cmp xs) = mset xs\<close>
  by (induction xs) (auto simp: mset_sort_insert)

lemma set_sort_insert: \<open>set (sort_insert cmp x xs) = insert x (set xs)\<close>
  by (induction xs) auto

lemma sorted_sort_insert:
  assumes \<open>sorted_wrt (\<lambda>a b. compare c a b \<le> 0) xs\<close>
  shows \<open>sorted_wrt (\<lambda>a b. compare c a b \<le> 0) (sort_insert (compare c) x xs)\<close>
  using assms
proof (induction xs)
  case Nil
  show ?case by simp
next
  case (Cons y ys)
  show ?case
  proof (cases \<open>compare c x y \<le> 0\<close>)
    case True
    with Cons.prems show ?thesis
      by (auto intro: compare_le_trans)
  next
    case False
    with compare_total [of c x y] have \<open>compare c y x \<le> 0\<close> by simp
    with False Cons show ?thesis by (auto simp: set_sort_insert)
  qed
qed

lemma sorted_js_sort: \<open>sorted_wrt (\<lambda>a b. compare c a b \<le> 0) (js_sort (compare c) xs)\<close>
  by (induction xs) (simp_all add: sorted_sort_insert)

lemma js_sort_sorted:
  \<open>sorted_wrt (\<lambda>a b. compare c a b \<le> 0) xs \<Longrightarrow> js_sort (compare c) xs = xs\<close>
proof (induction xs)
  case Nil
  show ?case by simp
next
  case (Cons x xs)
  then have \<open>js_sort (compare c) xs = xs\<close> by simp
  with Cons.prems show ?case by (cases xs) simp_all
qed

lemma js_sort_twice: \<open>js_sort (compare c) (js_sort (compare c) xs) = js_sort (compare c) xs\<close>
  by (rule js_sort_sorted) (rule sorted_js_sort)

lemma stable_sort_insert:
  \<open>filter (\<lambda>y. compare c y a = 0) (sort_insert (compare c) x xs)
   = filter (\<lambda>y. compare c y a = 0) (x # xs)\<close>
proof (induction xs)
  case Nil
  show ?case by simp
next
  case (Cons y ys)
  show ?case
  proof (cases \<open>compare c x y \<le> 0\<close>)
    case True
    then show ?thesis by simp
  next
    case False
    have \<open>\<not> (compare c x a = 0 \<and> compare c y a = 0)\<close>
    proof
      assume both: \<open>compare c x a = 0 \<and> compare c y a = 0\<close>
      then have \<open>compare c a y = 0\<close> by (simp add: compare_sym)
      with both have \<open>compare c x y = 0\<close> by (blast intro: compare_eq_trans)
      with False show False by simp
    qed
    with False Cons.IH show ?thesis by auto
  qed
qed

lemma stable_js_sort:
  \<open>filter (\<lambda>y. compare c y a = 0) (js_sort (compare c) xs) = filter (\<lambda>y. compare c y a = 0) xs\<close>
  by (induction xs) (simp_all add: stable_sort_insert)

lemma sorted_with_js_sort: \<open>sorted_with c xs (js_sort (compare c) xs)\<close>
  by (simp add: sorted_with_def mset_js_sort sorted_js_sort stable_js_sort)

lemma stable_sorted_unique:
  assumes \<open>sorted_wrt (\<lambda>a b. compare c a b \<le> 0) ys\<close>
    and \<open>sorted_wrt (\<lambda>a b. compare c a b \<le> 0) zs\<close>
    and \<open>\<And>a. filter (\<lambda>x. compare c x a = 0) ys = filter (\<lambda>x. compare c x a = 0) zs\<close>
  shows \<open>ys = zs\<close>
  using assms
proof (induction ys arbitrary: zs)
  case Nil
  show ?case
  proof (cases zs)
    case Nil
    then show ?thesis by simp
  next
    case (Cons z zs')
    with Nil.prems(3) [of z] show ?thesis by (simp add: compare_refl)
  qed
next
  case (Cons y ys')
  obtain z zs' where zs: \<open>zs = z # zs'\<close>
  proof (cases zs)
    case Nil
    with Cons.prems(3) [of y] have False by (simp add: compare_refl)
    then show ?thesis ..
  next
    case (Cons z zs')
    then show ?thesis by (rule that)
  qed
  have same: \<open>filter (\<lambda>x. compare c x a = 0) (y # ys') = filter (\<lambda>x. compare c x a = 0) (z # zs')\<close>
    for a
    using Cons.prems(3) [of a] by (simp add: zs)
  have head: \<open>y = z\<close>
  proof (cases \<open>compare c z y = 0\<close>)
    case True
    with same [of y] show ?thesis by (simp add: compare_refl)
  next
    case False
    then have yz: \<open>compare c y z \<noteq> 0\<close>
      using compare_sym [of c y z] by blast
    have \<open>y # filter (\<lambda>x. compare c x y = 0) ys' = filter (\<lambda>x. compare c x y = 0) zs'\<close>
      using same [of y] False by (simp add: compare_refl)
    moreover have \<open>y \<in> set (y # filter (\<lambda>x. compare c x y = 0) ys')\<close>
      by simp
    ultimately have \<open>y \<in> set (filter (\<lambda>x. compare c x y = 0) zs')\<close>
      by (simp only:)
    then have \<open>y \<in> set zs'\<close> by simp
    with Cons.prems(2) False have zy: \<open>compare c z y < 0\<close>
      by (auto simp: zs)
    have \<open>filter (\<lambda>x. compare c x z = 0) ys' = z # filter (\<lambda>x. compare c x z = 0) zs'\<close>
      using same [of z] yz by (simp add: compare_refl)
    moreover have \<open>z \<in> set (z # filter (\<lambda>x. compare c x z = 0) zs')\<close>
      by simp
    ultimately have \<open>z \<in> set (filter (\<lambda>x. compare c x z = 0) ys')\<close>
      by (simp only:)
    then have \<open>z \<in> set ys'\<close> by simp
    with Cons.prems(1) yz have \<open>compare c y z < 0\<close>
      by auto
    with compare_lt_gt [OF zy] show ?thesis by simp
  qed
  have \<open>ys' = zs'\<close>
  proof (rule Cons.IH)
    show \<open>sorted_wrt (\<lambda>a b. compare c a b \<le> 0) ys'\<close>
      using Cons.prems(1) by simp
    show \<open>sorted_wrt (\<lambda>a b. compare c a b \<le> 0) zs'\<close>
      using Cons.prems(2) by (simp add: zs)
    show \<open>filter (\<lambda>x. compare c x a = 0) ys' = filter (\<lambda>x. compare c x a = 0) zs'\<close> for a
      using same [of a] by (simp add: head split: if_splits)
  qed
  with head zs show ?case by simp
qed

lemma sorted_with_unique:
  \<open>sorted_with c xs ys \<Longrightarrow> sorted_with c xs zs \<Longrightarrow> ys = zs\<close>
  by (rule stable_sorted_unique [of c]) (simp_all add: sorted_with_def)

lemma sorted_with_iff: \<open>sorted_with c xs ys \<longleftrightarrow> ys = js_sort (compare c) xs\<close>
  using sorted_with_unique [of c xs ys \<open>js_sort (compare c) xs\<close>] sorted_with_js_sort [of c xs]
  by blast

text \<open>
  The getter in one equation, and the second call in \<open>#renderBoard\<close>: it finds the
  model's array as the first call left it and returns the same view.
\<close>

lemma points_eq:
  \<open>points env s =
     (filtered_sorted env s,
      s\<lparr>filterType := filterModel_filter s, pointsModel_points := points_after env s\<rparr>)\<close>
  by (cases \<open>currentSortType s\<close>; cases \<open>filter_table env (filterModel_filter s)\<close>)
    (simp_all add: points_def array_sort_def call_filter_def elements_def filtered_sorted_def
      comparator_for_def points_after_def Let_def)

lemma view_again:
  assumes \<open>filterModel_filter s' = filterModel_filter s\<close>
    and \<open>currentSortType s' = currentSortType s\<close>
    and \<open>pointsModel_points s' = points_after env s\<close>
  shows \<open>filtered_sorted env s' = filtered_sorted env s\<close>
    and \<open>points_after env s' = points_after env s\<close>
proof -
  show \<open>filtered_sorted env s' = filtered_sorted env s\<close>
    using assms
    by (cases \<open>filter_table env (filterModel_filter s)\<close>;
        cases \<open>comparator_for env (currentSortType s)\<close>)
      (simp_all add: filtered_sorted_def points_after_def Let_def js_sort_twice)
  then show \<open>points_after env s' = points_after env s\<close>
    using assms by (simp add: points_after_def)
qed

lemma renderPoint_eq:
  \<open>renderPoint pt s =
     s\<lparr>calls := calls s @ [PointPresenter_new (next_ref s), PointPresenter_init (next_ref s) pt],
       next_ref := Suc (next_ref s),
       pointPresenters := map_set (point_id pt) (next_ref s) (pointPresenters s)\<rparr>\<close>
  by (simp add: renderPoint_def log_def Let_def)

lemma fold_renderPoint:
  \<open>fold renderPoint pts s =
     s\<lparr>calls := calls s @ presenter_calls (next_ref s) pts,
       next_ref := next_ref s + length pts,
       pointPresenters := presenter_map (next_ref s) pts (pointPresenters s)\<rparr>\<close>
proof (induction pts arbitrary: s)
  case Nil
  show ?case by simp
next
  case (Cons pt pts)
  have \<open>fold renderPoint (pt # pts) s = fold renderPoint pts (renderPoint pt s)\<close>
    by simp
  also have \<open>\<dots> = (renderPoint pt s)
     \<lparr>calls := calls (renderPoint pt s) @ presenter_calls (next_ref (renderPoint pt s)) pts,
       next_ref := next_ref (renderPoint pt s) + length pts,
       pointPresenters :=
         presenter_map (next_ref (renderPoint pt s)) pts (pointPresenters (renderPoint pt s))\<rparr>\<close>
    by (rule Cons.IH)
  also have \<open>\<dots> = s\<lparr>calls := calls s @ presenter_calls (next_ref s) (pt # pts),
       next_ref := next_ref s + length (pt # pts),
       pointPresenters := presenter_map (next_ref s) (pt # pts) (pointPresenters s)\<rparr>\<close>
    apply (subst renderPoint_eq)+
    apply simp
    done
  finally show ?case .
qed

lemma renderBoard_loading:
  \<open>isLoading s \<Longrightarrow> renderBoard env s =
     s\<lparr>filterType := filterModel_filter s, pointsModel_points := points_after env s,
       calls := calls s @ [Render LoadingView (Some AFTERBEGIN)]\<rparr>\<close>
  by (simp add: renderBoard_def points_eq renderLoading_def render_def log_def)

lemma renderBoard_empty:
  \<open>\<not> isLoading s \<Longrightarrow> filtered_sorted env s = [] \<Longrightarrow> renderBoard env s =
     s\<lparr>filterType := filterModel_filter s, pointsModel_points := points_after env s,
       noPointsComponent := Some (NoPointsView (filterModel_filter s)),
       calls := calls s @ [Render (NoPointsView (filterModel_filter s)) None]\<rparr>\<close>
  by (simp add: renderBoard_def points_eq renderNoPoints_def render_def log_def)

lemma renderBoard_list:
  assumes \<open>\<not> isLoading s\<close> and \<open>filtered_sorted env s \<noteq> []\<close>
  shows \<open>renderBoard env s =
     s\<lparr>filterType := filterModel_filter s, pointsModel_points := points_after env s,
       sortComponent := Some (SortView (currentSortType s)),
       calls := calls s @ Render (SortView (currentSortType s)) (Some AFTERBEGIN)
                # Render EventListView None # presenter_calls (next_ref s) (filtered_sorted env s),
       next_ref := next_ref s + length (filtered_sorted env s),
       pointPresenters := presenter_map (next_ref s) (filtered_sorted env s) (pointPresenters s)\<rparr>\<close>
    (is \<open>_ = ?board\<close>)
proof -
  define s1 where \<open>s1 = s\<lparr>filterType := filterModel_filter s, pointsModel_points := points_after env s\<rparr>\<close>
  define s2 where \<open>s2 = renderSort s1\<close>
  have s2: \<open>s2 = s\<lparr>filterType := filterModel_filter s, pointsModel_points := points_after env s,
      sortComponent := Some (SortView (currentSortType s)),
      calls := calls s @ [Render (SortView (currentSortType s)) (Some AFTERBEGIN)]\<rparr>\<close>
    by (simp add: s2_def s1_def renderSort_def render_def log_def)
  have same: \<open>filtered_sorted env s2 = filtered_sorted env s\<close>
    and after: \<open>points_after env s2 = points_after env s\<close>
    by (rule view_again; simp add: s2)+
  have again: \<open>points env s2 = (filtered_sorted env s, s2)\<close>
    unfolding points_eq same after by (simp add: s2)
  have \<open>renderBoard env s = (let (points'', s3) = points env s2 in renderPointList points'' s3)\<close>
    using assms by (simp add: renderBoard_def points_eq s2_def s1_def Let_def)
  also have \<open>\<dots> = renderPointList (filtered_sorted env s) s2\<close>
    unfolding again by simp
  also have \<open>\<dots> = fold renderPoint (filtered_sorted env s) (render EventListView None s2)\<close>
    by (simp add: renderPointList_def)
  also have \<open>\<dots> = ?board\<close>
    unfolding fold_renderPoint by (simp add: s2 render_def log_def)
  finally show ?thesis .
qed

lemma renderBoard_eq:
  \<open>renderBoard env s =
     (if isLoading s
      then s\<lparr>filterType := filterModel_filter s, pointsModel_points := points_after env s,
             calls := calls s @ [Render LoadingView (Some AFTERBEGIN)]\<rparr>
      else if filtered_sorted env s = []
      then s\<lparr>filterType := filterModel_filter s, pointsModel_points := points_after env s,
             noPointsComponent := Some (NoPointsView (filterModel_filter s)),
             calls := calls s @ [Render (NoPointsView (filterModel_filter s)) None]\<rparr>
      else s\<lparr>filterType := filterModel_filter s, pointsModel_points := points_after env s,
             sortComponent := Some (SortView (currentSortType s)),
             calls := calls s @ Render (SortView (currentSortType s)) (Some AFTERBEGIN)
                # Render EventListView None # presenter_calls (next_ref s) (filtered_sorted env s),
             next_ref := next_ref s + length (filtered_sorted env s),
             pointPresenters :=
               presenter_map (next_ref s) (filtered_sorted env s) (pointPresenters s)\<rparr>)\<close>
proof (cases \<open>isLoading s\<close>)
  case True
  show ?thesis
    unfolding renderBoard_loading [OF True] by (simp only: True if_True)
next
  case False
  show ?thesis
  proof (cases \<open>filtered_sorted env s = []\<close>)
    case True
    show ?thesis
      unfolding renderBoard_empty [OF False True] by (simp only: False True if_True if_False simp_thms)
  next
    case nonempty: False
    show ?thesis
      unfolding renderBoard_list [OF False nonempty]
      by (simp only: False nonempty if_False)
  qed
qed

lemma destroy_all_eq: \<open>destroy_all m s = s\<lparr>calls := calls s @ destroy_calls m\<rparr>\<close>
proof (induction m arbitrary: s)
  case Nil
  show ?case by (simp add: destroy_all_def destroy_calls_def)
next
  case (Cons kv m)
  obtain k r where kv: \<open>kv = (k, r)\<close> by (cases kv)
  have \<open>destroy_all (kv # m) s = destroy_all m (log (PointPresenter_destroy r) s)\<close>
    by (simp add: destroy_all_def kv)
  also have \<open>\<dots> = (log (PointPresenter_destroy r) s)
      \<lparr>calls := calls (log (PointPresenter_destroy r) s) @ destroy_calls m\<rparr>\<close>
    by (rule Cons.IH)
  also have \<open>\<dots> = s\<lparr>calls := calls s @ destroy_calls (kv # m)\<rparr>\<close>
    by (simp add: log_def destroy_calls_def kv)
  finally show ?case .
qed

lemma clearBoard_eq:
  \<open>clearBoard arg s =
     (case newPointPresenter s of
        None \<Rightarrow>
          (Some TypeError,
           s\<lparr>pointPresenters := [],
             currentSortType := (if resetSortType_of arg then DAY else currentSortType s),
             calls := calls s @ clear_calls s\<rparr>)
      | Some presenter \<Rightarrow>
          (None,
           s\<lparr>pointPresenters := [],
             currentSortType := (if resetSortType_of arg then DAY else currentSortType s),
             calls := calls s @ clear_calls s @ [NewPointPresenter_destroy presenter]\<rparr>))\<close>
proof (cases \<open>newPointPresenter s\<close>; cases \<open>noPointsComponent s\<close>; cases \<open>resetSortType_of arg\<close>)
qed (simp_all add: clearBoard_def destroy_all_eq Let_def remove_def log_def clear_calls_def)

lemma renderBoard_keeps:
  \<open>isLoading (renderBoard env s) = isLoading s\<close>
  \<open>newPointPresenter (renderBoard env s) = newPointPresenter s\<close>
  \<open>currentSortType (renderBoard env s) = currentSortType s\<close>
  \<open>observers (renderBoard env s) = observers s\<close>
  unfolding renderBoard_eq by simp_all

lemma calls_renderBoard:
  \<open>calls (renderBoard env s) = calls s @
     (if isLoading s then [Render LoadingView (Some AFTERBEGIN)]
      else if filtered_sorted env s = [] then [Render (NoPointsView (filterModel_filter s)) None]
      else Render (SortView (currentSortType s)) (Some AFTERBEGIN) # Render EventListView None
           # presenter_calls (next_ref s) (filtered_sorted env s))\<close>
  unfolding renderBoard_eq by simp

lemma created_presenter_calls: \<open>created (presenter_calls r pts) = [r ..< r + length pts]\<close>
  by (induction pts arbitrary: r) (simp_all add: upt_rec)

lemma handleModelEvent_clear_render:
  assumes \<open>newPointPresenter s = Some presenter\<close>
    and \<open>updateType = MINOR \<or> updateType = MAJOR\<close>
  shows \<open>handleModelEvent env updateType data s =
     (None, renderBoard env
        (s\<lparr>pointPresenters := [],
           currentSortType := (if updateType = MAJOR then DAY else currentSortType s),
           calls := calls s @ clear_calls s @ [NewPointPresenter_destroy presenter]\<rparr>))\<close>
  using assms by (auto simp add: handleModelEvent_def clearBoard_eq)

lemma currentSortType_handleSortTypeChange:
  \<open>currentSortType (snd (handleSortTypeChange env sortType s)) = sortType\<close>
proof (cases \<open>currentSortType s = sortType\<close>)
  case True
  then show ?thesis by (simp add: handleSortTypeChange_def)
next
  case False
  then show ?thesis
    by (cases \<open>newPointPresenter s\<close>)
      (simp_all add: handleSortTypeChange_def clearBoard_eq renderBoard_keeps)
qed

lemma observers_addObserver:
  \<open>observers (addObserver m ob s) m' =
     (if m' = m \<and> ob \<notin> set (observers s m) then observers s m @ [ob] else observers s m')\<close>
  by (simp add: addObserver_def)

lemma observers_constructor:
  \<open>observers (constructor w) m =
     (if BoardPresenter_handleModelEvent \<in> set (observers w m) then observers w m
      else observers w m @ [BoardPresenter_handleModelEvent])\<close>
  by (cases m) (simp_all add: constructor_def Let_def observers_addObserver initial_fields_def)

lemma run_observers_append:
  \<open>run_observers env (xs @ ys) updateType data s =
     (case run_observers env xs updateType data s of
        (None, s1) \<Rightarrow> run_observers env ys updateType data s1
      | (Some e, s1) \<Rightarrow> (Some e, s1))\<close>
  by (induction xs arbitrary: s) (simp_all split: prod.splits option.splits)

lemma run_observers_others:
  \<open>BoardPresenter_handleModelEvent \<notin> set obs
   \<Longrightarrow> \<exists>s1. run_observers env obs updateType data s = (None, s1)\<close>
proof (induction obs arbitrary: s)
  case Nil
  show ?case by simp
next
  case (Cons ob obs)
  then obtain nm where \<open>ob = OtherObserver nm\<close>
    by (cases ob) auto
  with Cons show ?case
    by (simp add: call_observer_def)
qed

lemma notify_reaches:
  assumes \<open>BoardPresenter_handleModelEvent \<in> set obs\<close>
  shows \<open>\<exists>before after s1.
      obs = before @ BoardPresenter_handleModelEvent # after
      \<and> run_observers env before updateType data s = (None, s1)
      \<and> run_observers env obs updateType data s =
          (case handleModelEvent env updateType data s1 of
             (None, s2) \<Rightarrow> run_observers env after updateType data s2
           | (Some e, s2) \<Rightarrow> (Some e, s2))\<close>
proof -
  from assms obtain before after
    where split: \<open>obs = before @ BoardPresenter_handleModelEvent # after\<close>
      and first: \<open>BoardPresenter_handleModelEvent \<notin> set before\<close>
    by (auto dest: split_list_first)
  from run_observers_others [OF first] obtain s1
    where s1: \<open>run_observers env before updateType data s = (None, s1)\<close>
    by blast
  have \<open>run_observers env obs updateType data s =
          (case handleModelEvent env updateType data s1 of
             (None, s2) \<Rightarrow> run_observers env after updateType data s2
           | (Some e, s2) \<Rightarrow> (Some e, s2))\<close>
    unfolding split run_observers_append s1 by (simp add: call_observer_def)
  with split s1 show ?thesis by blast
qed

lemma observers_clearBoard: \<open>observers (snd (clearBoard arg s)) = observers s\<close>
  unfolding clearBoard_eq by (cases \<open>newPointPresenter s\<close>) simp_all

lemma observers_handleModelEvent:
  \<open>observers (snd (handleModelEvent env updateType data s)) = observers s\<close>
proof (cases updateType)
  case PATCH
  then show ?thesis
    by (simp add: handleModelEvent_def log_def split: payload.splits option.splits)
next
  case MINOR
  then show ?thesis
    unfolding handleModelEvent_def clearBoard_eq
    by (cases \<open>newPointPresenter s\<close>) (simp_all add: renderBoard_keeps)
next
  case MAJOR
  then show ?thesis
    unfolding handleModelEvent_def clearBoard_eq
    by (cases \<open>newPointPresenter s\<close>) (simp_all add: renderBoard_keeps)
next
  case INIT
  then show ?thesis
    by (simp add: handleModelEvent_def Let_def remove_def log_def renderError_def render_def
        renderBoard_keeps)
next
  case (UpdateOther other)
  then show ?thesis by (simp add: handleModelEvent_def)
qed

lemma observers_handleSortTypeChange:
  \<open>observers (snd (handleSortTypeChange env sortType s)) = observers s\<close>
  unfolding handleSortTypeChange_def clearBoard_eq
  by (cases \<open>newPointPresenter s\<close>) (simp_all add: renderBoard_keeps Let_def)

lemma observers_handleViewAction:
  \<open>observers (handleViewAction actionType updateType update s) = observers s\<close>
  by (cases actionType) (simp_all add: handleViewAction_def log_def)

lemma observers_call_observer:
  \<open>observers (snd (call_observer env ob updateType data s)) = observers s\<close>
  by (cases ob) (simp_all add: call_observer_def observers_handleModelEvent log_def)

lemma observers_run_observers:
  \<open>observers (snd (run_observers env obs updateType data s)) = observers s\<close>
proof (induction obs arbitrary: s)
  case Nil
  show ?case by simp
next
  case (Cons ob obs)
  obtain e s1 where called: \<open>call_observer env ob updateType data s = (e, s1)\<close>
    by (cases \<open>call_observer env ob updateType data s\<close>)
  then have kept: \<open>observers s1 = observers s\<close>
    using observers_call_observer [of env ob updateType data s] by simp
  show ?case
  proof (cases e)
    case None
    with called Cons.IH [of s1] kept show ?thesis by simp
  next
    case (Some err)
    with called kept show ?thesis by simp
  qed
qed

lemma handler_stays_step:
  assumes \<open>BoardPresenter_handleModelEvent \<in> set (observers s m)\<close>
  shows \<open>BoardPresenter_handleModelEvent \<in> set (observers (step env ev s) m)\<close>
  using assms
  by (cases ev)
    (auto simp add: notify_def observers_run_observers observers_handleModelEvent
      observers_handleSortTypeChange observers_handleViewAction init_def renderBoard_keeps
      observers_addObserver)

lemma handler_stays:
  \<open>BoardPresenter_handleModelEvent \<in> set (observers s m)
   \<Longrightarrow> BoardPresenter_handleModelEvent \<in> set (observers (run env events s) m)\<close>
  unfolding run_def
  by (induction events arbitrary: s) (simp_all add: handler_stays_step)

lemma compare_by_key: \<open>compare (by_key k) = (\<lambda>a b. k a - k b)\<close>
  unfolding by_key_def by (rule Comparator_inverse) (simp add: consistent_def)

lemma filtered_sorted_cong:
  \<open>filterModel_filter s' = filterModel_filter s \<Longrightarrow> pointsModel_points s' = pointsModel_points s
   \<Longrightarrow> currentSortType s' = currentSortType s \<Longrightarrow> filtered_sorted env s' = filtered_sorted env s\<close>
  by (simp add: filtered_sorted_def)

lemma pointPresenters_renderBoard:
  \<open>pointPresenters (renderBoard env s) =
     (if isLoading s \<or> filtered_sorted env s = [] then pointPresenters s
      else presenter_map (next_ref s) (filtered_sorted env s) (pointPresenters s))\<close>
  unfolding renderBoard_eq by simp

lemma observers_step:
  \<open>observers (step env ev s) =
     (case ev of
        ObserverAdded m nm \<Rightarrow> observers (addObserver m (OtherObserver nm) s)
      | _ \<Rightarrow> observers s)\<close>
  by (cases ev)
    (simp_all add: notify_def observers_run_observers observers_handleModelEvent
      observers_handleSortTypeChange observers_handleViewAction init_def renderBoard_keeps)

lemmas fixture_defs =
  example_env_def example_world_def unloaded_world_def point_a_def point_b_def
  constructor_def initial_fields_def addObserver_def

lemmas example_sorting =
  filtered_sorted_def comparator_for_def points_after_def compare_by_key example_env_def
  point_a_def point_b_def

lemma loaded_state_fields:
  \<open>newPointPresenter loaded_state = Some 0\<close>
  \<open>pointPresenters loaded_state = [(''b'', 1), (''a'', 2)]\<close>
  \<open>currentSortType loaded_state = DAY\<close>
  \<open>isLoading loaded_state = False\<close>
  \<open>next_ref loaded_state = 3\<close>
  \<open>pointsModel_points loaded_state = [point_b, point_a]\<close>
  \<open>filterModel_filter loaded_state = EVERYTHING\<close>
  \<open>sortComponent loaded_state = Some (SortView DAY)\<close>
  \<open>noPointsComponent loaded_state = None\<close>
  \<open>offerModel_offersByType loaded_state \<noteq> []\<close>
  \<open>destinationModel_destinations loaded_state \<noteq> []\<close>
  \<open>calls loaded_state =
     [Remove (Some LoadingView), NewPointPresenter_new 0,
      Render (SortView DAY) (Some AFTERBEGIN), Render EventListView None,
      PointPresenter_new 1, PointPresenter_init 1 point_b,
      PointPresenter_new 2, PointPresenter_init 2 point_a]\<close>
  unfolding loaded_state_def handleModelEvent_def renderBoard_eq
  by (simp_all add: Let_def remove_def log_def filtered_sorted_def comparator_for_def
      points_after_def compare_by_key fixture_defs numeral_2_eq_2 numeral_3_eq_3)

lemma constructed_fields:
  \<open>newPointPresenter (constructor w) = None\<close>
  \<open>pointPresenters (constructor w) = []\<close>
  \<open>currentSortType (constructor w) = DAY\<close>
  \<open>isLoading (constructor w) = True\<close>
  \<open>sortComponent (constructor w) = None\<close>
  \<open>noPointsComponent (constructor w) = None\<close>
  \<open>calls (constructor w) = calls w\<close>
  \<open>next_ref (constructor w) = next_ref w\<close>
  \<open>pointsModel_points (constructor w) = pointsModel_points w\<close>
  \<open>filterModel_filter (constructor w) = filterModel_filter w\<close>
  \<open>offerModel_offersByType (constructor w) = offerModel_offersByType w\<close>
  \<open>destinationModel_destinations (constructor w) = destinationModel_destinations w\<close>
  by (simp_all add: constructor_def initial_fields_def addObserver_def Let_def)

lemma failed_state_fields:
  \<open>newPointPresenter failed_state = None\<close>
  \<open>pointPresenters failed_state = []\<close>
  \<open>currentSortType failed_state = DAY\<close>
  \<open>isLoading failed_state = False\<close>
  \<open>pointsModel_points failed_state = []\<close>
  \<open>filterModel_filter failed_state = EVERYTHING\<close>
  \<open>sortComponent failed_state = None\<close>
  \<open>noPointsComponent failed_state = None\<close>
  \<open>calls failed_state = [Remove (Some LoadingView), Render ErrorView (Some AFTERBEGIN)]\<close>
  unfolding failed_state_def handleModelEvent_def
  by (simp_all add: Let_def remove_def log_def renderError_def render_def constructed_fields
      unloaded_world_def)

lemma twice_loaded_state_fields:
  \<open>newPointPresenter twice_loaded_state = Some 3\<close>
  \<open>pointPresenters twice_loaded_state = [(''b'', 4), (''a'', 5)]\<close>
  \<open>created (calls twice_loaded_state) = [1, 2, 4, 5]\<close>
  \<open>sortComponent twice_loaded_state = Some (SortView DAY)\<close>
  \<open>noPointsComponent twice_loaded_state = None\<close>
  unfolding twice_loaded_state_def handleModelEvent_def renderBoard_eq
  by (simp_all add: Let_def remove_def log_def loaded_state_fields example_sorting
      eval_nat_numeral)

text \<open>
  \<open>#newPointPresenter\<close> is assigned in one place, the branch of an \<open>INIT\<close> event whose
  data has loaded; nothing else changes it.
\<close>

lemma newPointPresenter_kept:
  \<open>updateType \<noteq> INIT
   \<Longrightarrow> newPointPresenter (snd (handleModelEvent env updateType data s)) = newPointPresenter s\<close>
  \<open>offerModel_offersByType s = [] \<or> destinationModel_destinations s = []
   \<Longrightarrow> newPointPresenter (snd (handleModelEvent env INIT data s)) = newPointPresenter s\<close>
  \<open>newPointPresenter (snd (handleSortTypeChange env sortType s)) = newPointPresenter s\<close>
  \<open>newPointPresenter (handleViewAction actionType updateType update s) = newPointPresenter s\<close>
  \<open>newPointPresenter (init env s) = newPointPresenter s\<close>
proof -
  show \<open>newPointPresenter (snd (handleModelEvent env updateType data s)) = newPointPresenter s\<close>
    if \<open>updateType \<noteq> INIT\<close>
    using that
    by (cases updateType; cases \<open>newPointPresenter s\<close>)
      (simp_all add: handleModelEvent_def clearBoard_eq renderBoard_keeps log_def
        split: payload.splits option.splits)
  show \<open>newPointPresenter (snd (handleModelEvent env INIT data s)) = newPointPresenter s\<close>
    if \<open>offerModel_offersByType s = [] \<or> destinationModel_destinations s = []\<close>
    using that
    by (auto simp add: handleModelEvent_def Let_def remove_def log_def renderError_def render_def)
  show \<open>newPointPresenter (snd (handleSortTypeChange env sortType s)) = newPointPresenter s\<close>
    by (cases \<open>newPointPresenter s\<close>)
      (simp_all add: handleSortTypeChange_def clearBoard_eq renderBoard_keeps)
  show \<open>newPointPresenter (handleViewAction actionType updateType update s) = newPointPresenter s\<close>
    by (cases actionType) (simp_all add: handleViewAction_def log_def)
  show \<open>newPointPresenter (init env s) = newPointPresenter s\<close>
    by (simp add: init_def renderBoard_keeps)
qed

subsection \<open>The filter view\<close>

lemma attribute_names_template:
  assumes \<open>CHR ''"'' \<notin> set (ftype flt)\<close>
  shows \<open>attribute_names (createFilterItemTemplate flt currentFilterType) =
     [''id'', ''class'', ''type'', ''name'', ''value'']
     @ (if ftype flt = currentFilterType then [''checked''] else [])
     @ (if fcount flt = 0 then [''disabled''] else [])\<close>
  using assms
  by (simp add: createFilterItemTemplate_def attribute_names_def Let_def is_space_def
      tag_words_quoted_text)

text \<open>
  Claim C1, as amended. For every filter item whose type contains no double quote, the
  radio input generated by \<open>createFilterItemTemplate\<close> carries the attribute
  \<open>disabled\<close> if and only if the item's count is 0.
\<close>

theorem filter_item_disabled_iff_count_zero:
  assumes \<open>CHR ''"'' \<notin> set (ftype flt)\<close>
  shows \<open>input_has_attribute ''disabled'' (createFilterItemTemplate flt currentFilterType)
     \<longleftrightarrow> fcount flt = 0\<close>
  unfolding input_has_attribute_def attribute_names_template [OF assms] by simp

text \<open>
  The filter \<open>past\<close> with no matching point is rendered disabled, and with two matching
  points it is not.
\<close>

theorem filter_item_disabled_iff_count_zero_witness:
  \<open>CHR ''"'' \<notin> set (ftype \<lparr>ftype = ''past'', fcount = 0\<rparr>)
   \<and> input_has_attribute ''disabled''
        (createFilterItemTemplate \<lparr>ftype = ''past'', fcount = 0\<rparr> ''everything'')
   \<and> \<not> input_has_attribute ''disabled''
        (createFilterItemTemplate \<lparr>ftype = ''past'', fcount = 2\<rparr> ''everything'')\<close>
  using filter_item_disabled_iff_count_zero [of \<open>\<lparr>ftype = ''past'', fcount = 0\<rparr>\<close> \<open>''everything''\<close>]
    filter_item_disabled_iff_count_zero [of \<open>\<lparr>ftype = ''past'', fcount = 2\<rparr>\<close> \<open>''everything''\<close>]
  by simp

text \<open>
  Claim C1, as stated, at a type that holds double quotes. The type is interpolated as it
  is, so it can close the \<open>id\<close> attribute and bring attributes of its own: the input
  carries \<open>disabled\<close> although the count is 3.
\<close>

theorem filter_item_quoted_type_counterexample:
  \<open>fcount \<lparr>ftype = ''x" disabled y="'', fcount = 3\<rparr> \<noteq> 0
   \<and> input_has_attribute ''disabled''
        (createFilterItemTemplate \<lparr>ftype = ''x" disabled y="'', fcount = 3\<rparr> ''everything'')\<close>
  by (simp add: input_has_attribute_def attribute_names_def createFilterItemTemplate_def
      Let_def is_space_def)

subsection \<open>The board presenter\<close>

text \<open>
  Claim C2. On an \<open>INIT\<close> event the presenter stops loading and removes the loading
  view. When the offers or the destinations are empty (the data failed to load) it
  renders the error view and does nothing else: no new-point presenter is created and no
  part of the board is rendered. Otherwise it creates the new-point presenter and renders
  the board: the no-points view when no point is visible, else the sort view, the list
  and one new point presenter for each visible point, entered in the map.
\<close>

theorem handleModelEvent_INIT:
  \<open>let r = handleModelEvent env INIT data s; s' = snd r in
     fst r = None \<and> \<not> isLoading s' \<and>
     (if offerModel_offersByType s = [] \<or> destinationModel_destinations s = []
      then calls s' = calls s @ [Remove (Some LoadingView), Render ErrorView (Some AFTERBEGIN)]
           \<and> newPointPresenter s' = newPointPresenter s
           \<and> pointPresenters s' = pointPresenters s
           \<and> next_ref s' = next_ref s
      else newPointPresenter s' = Some (next_ref s)
           \<and> s' = renderBoard env
                 (s\<lparr>isLoading := False,
                    newPointPresenter := Some (next_ref s),
                    next_ref := Suc (next_ref s),
                    calls := calls s @ [Remove (Some LoadingView),
                                        NewPointPresenter_new (next_ref s)]\<rparr>)
           \<and> calls s' = calls s
                 @ [Remove (Some LoadingView), NewPointPresenter_new (next_ref s)]
                 @ (if filtered_sorted env s = []
                    then [Render (NoPointsView (filterModel_filter s)) None]
                    else Render (SortView (currentSortType s)) (Some AFTERBEGIN)
                         # Render EventListView None
                         # presenter_calls (Suc (next_ref s)) (filtered_sorted env s))
           \<and> pointPresenters s'
               = presenter_map (Suc (next_ref s)) (filtered_sorted env s) (pointPresenters s))\<close>
proof -
  define s4 where \<open>s4 = s\<lparr>isLoading := False,
      newPointPresenter := Some (next_ref s),
      next_ref := Suc (next_ref s),
      calls := calls s @ [Remove (Some LoadingView), NewPointPresenter_new (next_ref s)]\<rparr>\<close>
  have view: \<open>filtered_sorted env s4 = filtered_sorted env s\<close>
    by (rule filtered_sorted_cong) (simp_all add: s4_def)
  have fields: \<open>\<not> isLoading s4\<close> \<open>next_ref s4 = Suc (next_ref s)\<close>
    \<open>calls s4 = calls s @ [Remove (Some LoadingView), NewPointPresenter_new (next_ref s)]\<close>
    \<open>filterModel_filter s4 = filterModel_filter s\<close> \<open>currentSortType s4 = currentSortType s\<close>
    \<open>pointPresenters s4 = pointPresenters s\<close> \<open>newPointPresenter s4 = Some (next_ref s)\<close>
    by (simp_all add: s4_def)
  have board: \<open>calls (renderBoard env s4) = calls s
       @ [Remove (Some LoadingView), NewPointPresenter_new (next_ref s)]
       @ (if filtered_sorted env s = []
          then [Render (NoPointsView (filterModel_filter s)) None]
          else Render (SortView (currentSortType s)) (Some AFTERBEGIN)
               # Render EventListView None
               # presenter_calls (Suc (next_ref s)) (filtered_sorted env s))\<close>
    by (subst calls_renderBoard) (simp add: view fields)
  have map: \<open>pointPresenters (renderBoard env s4)
      = presenter_map (Suc (next_ref s)) (filtered_sorted env s) (pointPresenters s)\<close>
    by (subst renderBoard_eq) (simp add: view fields)
  have \<open>handleModelEvent env INIT data s =
     (if offerModel_offersByType s = [] \<or> destinationModel_destinations s = []
      then (None, s\<lparr>isLoading := False,
              calls := calls s @ [Remove (Some LoadingView), Render ErrorView (Some AFTERBEGIN)]\<rparr>)
      else (None, renderBoard env s4))\<close>
    unfolding s4_def
    by (cases s)
      (simp add: handleModelEvent_def Let_def remove_def log_def renderError_def render_def)
  then show ?thesis
    using board map unfolding Let_def
    by (simp add: renderBoard_keeps fields s4_def [symmetric])
qed

text \<open>
  With nothing loaded the error view is all there is, and no new-point presenter; with
  the example data the new-point presenter is the first object created, and the board
  with the two points follows.
\<close>

theorem handleModelEvent_INIT_witness:
  \<open>calls (snd (handleModelEvent example_env INIT NoData (constructor unloaded_world)))
     = [Remove (Some LoadingView), Render ErrorView (Some AFTERBEGIN)]
   \<and> newPointPresenter (snd (handleModelEvent example_env INIT NoData (constructor unloaded_world)))
     = None
   \<and> newPointPresenter (snd (handleModelEvent example_env INIT NoData (constructor example_world)))
     = Some 0
   \<and> calls (snd (handleModelEvent example_env INIT NoData (constructor example_world)))
     = [Remove (Some LoadingView), NewPointPresenter_new 0,
        Render (SortView DAY) (Some AFTERBEGIN), Render EventListView None,
        PointPresenter_new 1, PointPresenter_init 1 point_b,
        PointPresenter_new 2, PointPresenter_init 2 point_a]
   \<and> pointPresenters (snd (handleModelEvent example_env INIT NoData (constructor example_world)))
     = [(''b'', 1), (''a'', 2)]\<close>
  using handleModelEvent_INIT [of example_env NoData \<open>constructor unloaded_world\<close>]
    handleModelEvent_INIT [of example_env NoData \<open>constructor example_world\<close>]
  by (simp add: Let_def constructed_fields unloaded_world_def example_world_def
      renderBoard_keeps calls_renderBoard pointPresenters_renderBoard example_sorting
      eval_nat_numeral)

text \<open>
  Claim C3. The getter returns the model's points with the filter model's current filter
  applied and, for the sort types day, price and time, sorted with \<open>sortDay\<close>,
  \<open>sortPrice\<close> and \<open>sortTime\<close>: the filtered points, in the comparator's order, equal
  ones in the order they had. For any other sort type it returns the filtered points as
  they are. It records the filter in \<open>#filterType\<close>; when the filter hands back the
  model's array, that array is left sorted like the view; nothing else changes.
\<close>

theorem points_filtered_then_sorted:
  \<open>let filtered = filtered_points (filter_table env (filterModel_filter s)) (pointsModel_points s);
       view = fst (points env s);
       s' = snd (points env s)
   in (case currentSortType s of
         DAY \<Rightarrow> sorted_with (sortDay env) filtered view
       | PRICE \<Rightarrow> sorted_with (sortPrice env) filtered view
       | TIME \<Rightarrow> sorted_with (sortTime env) filtered view
       | SortOther other \<Rightarrow> view = filtered)
      \<and> s' = s\<lparr>filterType := filterModel_filter s,
                pointsModel_points :=
                  (if filter_table env (filterModel_filter s) = ReturnsArgument then view
                   else pointsModel_points s)\<rparr>\<close>
  unfolding Let_def points_eq fst_conv snd_conv
  by (cases \<open>currentSortType s\<close>)
    (simp_all add: filtered_sorted_def comparator_for_def points_after_def sorted_with_js_sort)

text \<open>
  The two example points by day, with the model's array sorted along; by price, by time,
  and unsorted under any other sort type; under a filter that selects, which leaves the
  model's array alone.
\<close>

theorem points_filtered_then_sorted_witness:
  \<open>fst (points example_env (constructor example_world)) = [point_b, point_a]
   \<and> sorted_with (sortDay example_env) [point_a, point_b] [point_b, point_a]
   \<and> pointsModel_points (snd (points example_env (constructor example_world)))
       = [point_b, point_a]
   \<and> fst (points example_env ((constructor example_world)\<lparr>currentSortType := PRICE\<rparr>))
       = [point_b, point_a]
   \<and> fst (points example_env ((constructor example_world)\<lparr>currentSortType := TIME\<rparr>))
       = [point_a, point_b]
   \<and> fst (points example_env ((constructor example_world)\<lparr>currentSortType := SortOther ''event''\<rparr>))
       = [point_a, point_b]
   \<and> fst (points example_env
         ((constructor example_world)\<lparr>filterModel_filter := FilterOther ''future''\<rparr>))
       = [point_a]
   \<and> pointsModel_points (snd (points example_env
         ((constructor example_world)\<lparr>filterModel_filter := FilterOther ''future''\<rparr>)))
       = [point_a, point_b]\<close>
  using points_filtered_then_sorted [of example_env \<open>constructor example_world\<close>]
  by (simp add: Let_def points_eq constructed_fields example_world_def example_sorting)

text \<open>
  Claim C4. One call of \<open>#renderBoard\<close> renders one display state: the loading view
  while loading, whatever the points are; else the no-points view when no point is
  visible; else the sort control and the list with one new point presenter, initialised
  with its point, for each visible point in order.
\<close>

theorem renderBoard_one_display_state:
  \<open>calls (renderBoard env s) = calls s @
     (if isLoading s then [Render LoadingView (Some AFTERBEGIN)]
      else if filtered_sorted env s = [] then [Render (NoPointsView (filterModel_filter s)) None]
      else Render (SortView (currentSortType s)) (Some AFTERBEGIN) # Render EventListView None
           # presenter_calls (next_ref s) (filtered_sorted env s))
   \<and> created (drop (length (calls s)) (calls (renderBoard env s))) =
     (if isLoading s \<or> filtered_sorted env s = [] then []
      else [next_ref s ..< next_ref s + length (filtered_sorted env s)])\<close>
  unfolding calls_renderBoard by (simp add: created_presenter_calls)

text \<open>
  The three display states: while loading, with no point to show, and with the two
  example points.
\<close>

theorem renderBoard_one_display_state_witness:
  \<open>calls (renderBoard example_env (constructor example_world))
     = [Render LoadingView (Some AFTERBEGIN)]
   \<and> calls (renderBoard example_env failed_state)
     = calls failed_state @ [Render (NoPointsView EVERYTHING) None]
   \<and> calls (renderBoard example_env loaded_state)
     = calls loaded_state
       @ [Render (SortView DAY) (Some AFTERBEGIN), Render EventListView None,
          PointPresenter_new 3, PointPresenter_init 3 point_b,
          PointPresenter_new 4, PointPresenter_init 4 point_a]\<close>
  using renderBoard_one_display_state [of example_env \<open>constructor example_world\<close>]
    renderBoard_one_display_state [of example_env failed_state]
    renderBoard_one_display_state [of example_env loaded_state]
  by (simp add: constructed_fields example_world_def failed_state_fields loaded_state_fields
      example_sorting eval_nat_numeral)

text \<open>
  Claim C5 on a presenter that has been constructed and has not seen a successful
  \<open>INIT\<close>: \<open>#newPointPresenter\<close> is still \<open>null\<close>, a \<open>MINOR\<close> event makes the three
  removals of \<open>#clearBoard\<close> and throws at its last statement, and the board is never
  rendered again.
\<close>

theorem handleModelEvent_MINOR_before_INIT:
  \<open>fst (handleModelEvent example_env MINOR NoData (constructor example_world)) = Some TypeError
   \<and> calls (snd (handleModelEvent example_env MINOR NoData (constructor example_world)))
     = [Remove None, Remove None, Remove (Some LoadingView)]\<close>
  by (simp add: handleModelEvent_def clearBoard_eq clear_calls_def destroy_calls_def
      constructed_fields example_world_def)

text \<open>
  When the new-point presenter exists the handler clears and renders as
  \<open>handleModelEvent_clear_render\<close> says, but clearing destroys the presenters of the map
  only. A second \<open>INIT\<close> event renders the board without clearing it: the presenters 1
  and 2 of the first board lose their places in the map to 4 and 5 and are not destroyed
  by the next clearing.
\<close>

lemma presenters_outside_the_map_survive:
  \<open>drop (length (calls twice_loaded_state))
      (calls (snd (clearBoard Omitted twice_loaded_state)))
     = [PointPresenter_destroy 4, PointPresenter_destroy 5,
        Remove (Some (SortView DAY)), Remove None, Remove (Some LoadingView),
        NewPointPresenter_destroy 3]\<close>
  by (simp add: clearBoard_eq clear_calls_def destroy_calls_def twice_loaded_state_fields)

text \<open>
  Claim C6. \<open>#handleViewAction\<close> makes exactly one call on the points model for the
  three known actions, with the update type and the payload it was given, and does
  nothing for any other action.
\<close>

theorem handleViewAction_dispatch:
  \<open>handleViewAction actionType updateType update s =
     s\<lparr>calls := calls s @
        (case actionType of
           UPDATE_POINT \<Rightarrow> [PointsModel_updatePoint updateType update]
         | ADD_POINT \<Rightarrow> [PointsModel_addPoint updateType update]
         | DELETE_POINT \<Rightarrow> [PointsModel_deletePoint updateType update]
         | ActionOther other \<Rightarrow> [])\<rparr>\<close>
  by (cases actionType) (simp_all add: handleViewAction_def log_def)

text \<open>
  Deleting a point is one call on the points model; an unknown action is none.
\<close>

theorem handleViewAction_dispatch_witness:
  \<open>calls (handleViewAction DELETE_POINT MINOR (PointData point_a) loaded_state)
     = calls loaded_state @ [PointsModel_deletePoint MINOR (PointData point_a)]
   \<and> handleViewAction (ActionOther ''SORT'') MINOR NoData loaded_state = loaded_state\<close>
  using handleViewAction_dispatch [of DELETE_POINT MINOR \<open>PointData point_a\<close> loaded_state]
    handleViewAction_dispatch [of \<open>ActionOther ''SORT''\<close> MINOR NoData loaded_state]
  by simp

text \<open>
  Claim C7. The constructor registers \<open>#handleModelEvent\<close> with each model (the model
  \<open>m\<close> is any of the four), and the registration stays: whatever events follow the
  construction, the handler is an observer of the model, and a notification of the model
  calls it with the update type and the payload, after the observers in front of it.
\<close>

theorem constructor_registers_handler:
  \<open>let s = run env events (constructor w) in
     BoardPresenter_handleModelEvent \<in> set (observers s m)
     \<and> (\<exists>before after s1.
          observers s m = before @ BoardPresenter_handleModelEvent # after
          \<and> run_observers env before updateType data s = (None, s1)
          \<and> notify env m updateType data s =
              (case handleModelEvent env updateType data s1 of
                 (None, s2) \<Rightarrow> run_observers env after updateType data s2
               | (Some e, s2) \<Rightarrow> (Some e, s2)))\<close>
proof -
  have \<open>BoardPresenter_handleModelEvent \<in> set (observers (constructor w) m)\<close>
    by (simp add: observers_constructor)
  then have registered:
    \<open>BoardPresenter_handleModelEvent \<in> set (observers (run env events (constructor w)) m)\<close>
    by (rule handler_stays)
  show ?thesis
    unfolding Let_def notify_def
    using registered notify_reaches [OF registered] by blast
qed

text \<open>
  After an \<open>INIT\<close> notification, a change of the sort type, the registration of another
  observer, a change of the models' data and a \<open>MAJOR\<close> notification the handler still
  observes the four models; on the new presenter a notification of the points model is a
  call of the handler.
\<close>

theorem constructor_registers_handler_witness:
  \<open>BoardPresenter_handleModelEvent
     \<in> set (observers (run example_env example_events (constructor example_world)) PointsModel)
   \<and> BoardPresenter_handleModelEvent
     \<in> set (observers (run example_env example_events (constructor example_world)) FilterModel)
   \<and> BoardPresenter_handleModelEvent
     \<in> set (observers (run example_env example_events (constructor example_world)) OfferModel)
   \<and> BoardPresenter_handleModelEvent
     \<in> set (observers (run example_env example_events (constructor example_world))
           DestinationModel)
   \<and> observers (run example_env example_events (constructor example_world)) FilterModel
     = [BoardPresenter_handleModelEvent, OtherObserver ''filter-presenter'']
   \<and> notify example_env PointsModel INIT NoData (constructor example_world)
     = handleModelEvent example_env INIT NoData (constructor example_world)\<close>
proof -
  have \<open>notify example_env PointsModel INIT NoData (constructor example_world)
     = handleModelEvent example_env INIT NoData (constructor example_world)\<close>
    by (simp add: notify_def observers_constructor example_world_def call_observer_def
        split: prod.splits option.splits)
  moreover have \<open>observers (run example_env example_events (constructor example_world)) FilterModel
     = [BoardPresenter_handleModelEvent, OtherObserver ''filter-presenter'']\<close>
    by (simp add: run_def example_events_def observers_step observers_addObserver
        observers_constructor example_world_def del: step.simps)
  ultimately show ?thesis
    using constructor_registers_handler
      [of example_env example_events example_world PointsModel INIT NoData]
    constructor_registers_handler
      [of example_env example_events example_world FilterModel INIT NoData]
    constructor_registers_handler
      [of example_env example_events example_world OfferModel INIT NoData]
    constructor_registers_handler
      [of example_env example_events example_world DestinationModel INIT NoData]
    by (simp add: Let_def)
qed

text \<open>
  Claim C8. A \<open>PATCH\<close> event with a point whose id has a presenter in the map calls
  \<open>init\<close> on that presenter with the point, and that call is the only effect: the map,
  the sort type and everything else stay as they were.
\<close>

theorem handleModelEvent_PATCH:
  assumes \<open>map_of (pointPresenters s) (point_id pt) = Some presenter\<close>
  shows \<open>handleModelEvent env PATCH (PointData pt) s
       = (None, s\<lparr>calls := calls s @ [PointPresenter_init presenter pt]\<rparr>)
     \<and> pointPresenters (snd (handleModelEvent env PATCH (PointData pt) s)) = pointPresenters s
     \<and> currentSortType (snd (handleModelEvent env PATCH (PointData pt) s)) = currentSortType s\<close>
  using assms by (simp add: handleModelEvent_def log_def)

text \<open>
  On the loaded board the point \<open>a\<close> has the presenter 2, which is initialised again.
\<close>

theorem handleModelEvent_PATCH_witness:
  \<open>map_of (pointPresenters loaded_state) (point_id point_a) = Some 2
   \<and> handleModelEvent example_env PATCH (PointData point_a) loaded_state
     = (None, loaded_state\<lparr>calls := calls loaded_state @ [PointPresenter_init 2 point_a]\<rparr>)\<close>
proof -
  have registered: \<open>map_of (pointPresenters loaded_state) (point_id point_a) = Some 2\<close>
    by (simp add: loaded_state_fields point_a_def)
  from handleModelEvent_PATCH [OF registered, of example_env] registered
  show ?thesis by simp
qed

text \<open>
  Claim C9. With no new-point presenter (\<open>#newPointPresenter\<close> is \<open>null\<close> until an
  \<open>INIT\<close> event succeeds), \<open>#clearBoard\<close> throws a \<open>TypeError\<close>, and so do the
  \<open>MINOR\<close> and \<open>MAJOR\<close> branches of the handler.
\<close>

theorem clearBoard_without_newPointPresenter:
  assumes \<open>newPointPresenter s = None\<close>
  shows \<open>fst (clearBoard arg s) = Some TypeError
     \<and> fst (handleModelEvent env MINOR data s) = Some TypeError
     \<and> fst (handleModelEvent env MAJOR data s) = Some TypeError\<close>
  using assms by (simp add: handleModelEvent_def clearBoard_eq)

text \<open>
  Both before any \<open>INIT\<close> event and after one that failed there is no new-point
  presenter, and the handler throws.
\<close>

theorem clearBoard_without_newPointPresenter_witness:
  \<open>newPointPresenter (constructor example_world) = None
   \<and> fst (handleModelEvent example_env MINOR NoData (constructor example_world)) = Some TypeError
   \<and> newPointPresenter failed_state = None
   \<and> fst (handleModelEvent example_env MAJOR (FilterData EVERYTHING) failed_state)
     = Some TypeError\<close>
proof -
  have before: \<open>newPointPresenter (constructor example_world) = None\<close>
    by (simp add: constructed_fields)
  have failed: \<open>newPointPresenter failed_state = None\<close>
    by (simp add: failed_state_fields)
  from clearBoard_without_newPointPresenter [OF before, of Omitted example_env NoData]
    clearBoard_without_newPointPresenter [OF failed, of Omitted example_env \<open>FilterData EVERYTHING\<close>]
    before failed
  show ?thesis by simp
qed

text \<open>
  Claim C10. The sort-type handler called with the current sort type returns at once and
  leaves the presenter as it is; hence selecting a sort type a second time changes
  nothing.
\<close>

theorem handleSortTypeChange_same_type:
  \<open>handleSortTypeChange env (currentSortType s) s = (None, s)
   \<and> handleSortTypeChange env sortType (snd (handleSortTypeChange env sortType s))
       = (None, snd (handleSortTypeChange env sortType s))\<close>
proof -
  have same: \<open>handleSortTypeChange env t s' = (None, s')\<close> if \<open>currentSortType s' = t\<close> for t s'
    using that by (simp add: handleSortTypeChange_def)
  have \<open>handleSortTypeChange env (currentSortType s) s = (None, s)\<close>
    by (rule same) simp
  moreover have \<open>handleSortTypeChange env sortType (snd (handleSortTypeChange env sortType s))
       = (None, snd (handleSortTypeChange env sortType s))\<close>
    by (rule same) (rule currentSortType_handleSortTypeChange)
  ultimately show ?thesis by simp
qed

text \<open>
  On the loaded board, sorted by day: selecting day changes nothing; selecting price
  changes the sort type, and selecting price again changes nothing.
\<close>

theorem handleSortTypeChange_same_type_witness:
  \<open>handleSortTypeChange example_env DAY loaded_state = (None, loaded_state)
   \<and> currentSortType (snd (handleSortTypeChange example_env PRICE loaded_state)) = PRICE
   \<and> handleSortTypeChange example_env PRICE
        (snd (handleSortTypeChange example_env PRICE loaded_state))
     = (None, snd (handleSortTypeChange example_env PRICE loaded_state))\<close>
  using handleSortTypeChange_same_type [of example_env loaded_state PRICE]
  by (simp add: loaded_state_fields currentSortType_handleSortTypeChange)

end
